theory Spec2Isabelle
  imports Complex_Main
begin

section \<open>Numbers and 3-vectors\<close>

text \<open>
  The pipeline of \<^verbatim>\<open>imu_dynamic.py\<close> computes on Python floats and numpy arrays of
  shape (3,) and (3,3). Scalars are modelled as exact reals: rounding of the binary
  floating-point format is outside this development, and every statement below is a
  statement about the arithmetic the code writes down, carried out exactly.

  The pipeline constructs its projector with \<^verbatim>\<open>n_dims=3\<close> and feeds it
  \<^verbatim>\<open>np.array([ax, ay, az])\<close>, so a vector is a triple and a matrix a triple of rows.
\<close>

type_synonym vec3 = "real \<times> real \<times> real"
type_synonym mat3 = "vec3 \<times> vec3 \<times> vec3"

definition zeros3 :: vec3 where
  "zeros3 = (0, 0, 0)"

definition zeros33 :: mat3 where
  "zeros33 = (zeros3, zeros3, zeros3)"

fun vadd :: "vec3 \<Rightarrow> vec3 \<Rightarrow> vec3" where
  "vadd (a1, a2, a3) (b1, b2, b3) = (a1 + b1, a2 + b2, a3 + b3)"

fun vsub :: "vec3 \<Rightarrow> vec3 \<Rightarrow> vec3" where
  "vsub (a1, a2, a3) (b1, b2, b3) = (a1 - b1, a2 - b2, a3 - b3)"

fun vdiv :: "vec3 \<Rightarrow> real \<Rightarrow> vec3" where
  "vdiv (a1, a2, a3) k = (a1 / k, a2 / k, a3 / k)"

fun vscale :: "real \<Rightarrow> vec3 \<Rightarrow> vec3" where
  "vscale k (a1, a2, a3) = (k * a1, k * a2, k * a3)"

fun vneg :: "vec3 \<Rightarrow> vec3" where
  "vneg (a1, a2, a3) = (- a1, - a2, - a3)"

fun dot :: "vec3 \<Rightarrow> vec3 \<Rightarrow> real" where
  "dot (a1, a2, a3) (b1, b2, b3) = a1 * b1 + a2 * b2 + a3 * b3"

text \<open>\<^verbatim>\<open>np.linalg.norm\<close> of a vector: the Euclidean norm.\<close>

definition linalg_norm :: "vec3 \<Rightarrow> real" where
  "linalg_norm v = sqrt (dot v v)"

text \<open>\<^verbatim>\<open>np.outer(a, b)\<close>: row i is \<open>a\<^sub>i\<close> times \<open>b\<close>.\<close>

fun outer :: "vec3 \<Rightarrow> vec3 \<Rightarrow> mat3" where
  "outer (a1, a2, a3) b = (vscale a1 b, vscale a2 b, vscale a3 b)"

fun madd :: "mat3 \<Rightarrow> mat3 \<Rightarrow> mat3" where
  "madd (r1, r2, r3) (s1, s2, s3) = (vadd r1 s1, vadd r2 s2, vadd r3 s3)"

fun mdiv :: "mat3 \<Rightarrow> real \<Rightarrow> mat3" where
  "mdiv (r1, r2, r3) k = (vdiv r1 k, vdiv r2 k, vdiv r3 k)"

text \<open>The component-wise sum of a list of samples, for stating the arithmetic mean.\<close>

fun vsum :: "vec3 list \<Rightarrow> vec3" where
  "vsum [] = zeros3"
| "vsum (x # xs) = vadd x (vsum xs)"


section \<open>StreamingPCA: the online projector\<close>

text \<open>
  \<^verbatim>\<open>class StreamingPCA\<close>. The field \<^verbatim>\<open>n_dims\<close> is fixed to 3 by the vector type;
  \<^verbatim>\<open>n\<close>, \<^verbatim>\<open>mean\<close> and \<^verbatim>\<open>C\<close> carry the prefix \<open>pca_\<close>.
\<close>

record StreamingPCA =
  warmup :: int
  pca_n :: int
  pca_mean :: vec3
  pca_C :: mat3
  prev_pc1 :: "vec3 option"

definition StreamingPCA_init :: "int \<Rightarrow> StreamingPCA" where
  "StreamingPCA_init w =
     \<lparr>warmup = w, pca_n = 0, pca_mean = zeros3, pca_C = zeros33, prev_pc1 = None\<rparr>"

text \<open>
  \<^verbatim>\<open>StreamingPCA.update\<close>. The eigendecomposition \<^verbatim>\<open>np.linalg.eigh\<close> is a library
  routine: \<open>eigh\<close> is a parameter standing for
  \<^verbatim>\<open>lambda cov: np.linalg.eigh(cov)[1][:, -1]\<close>, the eigenvector the code selects.
  The function returns the projection and the updated object.
\<close>

definition update :: "(mat3 \<Rightarrow> vec3) \<Rightarrow> StreamingPCA \<Rightarrow> vec3 \<Rightarrow> real \<times> StreamingPCA" where
  "update eigh p x =
     (let n' = pca_n p + 1;
          delta = vsub x (pca_mean p);
          mean' = vadd (pca_mean p) (vdiv delta (real_of_int n'));
          delta2 = vsub x mean';
          C' = madd (pca_C p) (outer delta delta2);
          p1 = p\<lparr>pca_n := n', pca_mean := mean', pca_C := C'\<rparr>
      in if n' < warmup p then (linalg_norm (vsub x mean'), p1)
         else
           (let cov = mdiv C' (real_of_int n');
                pc1 = eigh cov;
                pc1' = (case prev_pc1 p of
                          None \<Rightarrow> pc1
                        | Some prev \<Rightarrow> if dot pc1 prev < 0 then vneg pc1 else pc1)
            in (dot (vsub x mean') pc1', p1\<lparr>prev_pc1 := Some pc1'\<rparr>)))"

text \<open>Feeding a sequence of samples, one \<^verbatim>\<open>update\<close> call each, in order.\<close>

fun update_all :: "(mat3 \<Rightarrow> vec3) \<Rightarrow> StreamingPCA \<Rightarrow> vec3 list \<Rightarrow> StreamingPCA" where
  "update_all eigh p [] = p"
| "update_all eigh p (x # xs) = update_all eigh (snd (update eigh p x)) xs"


section \<open>StreamingSmoother: the causal smoother\<close>

text \<open>\<^verbatim>\<open>class StreamingSmoother\<close>; \<^verbatim>\<open>value\<close> is \<open>sm_value\<close>, \<open>None\<close> before the first sample.\<close>

record StreamingSmoother =
  alpha :: real
  sm_value :: "real option"

definition StreamingSmoother_init :: "real \<Rightarrow> StreamingSmoother" where
  "StreamingSmoother_init a = \<lparr>alpha = a, sm_value = None\<rparr>"

definition smooth_update :: "StreamingSmoother \<Rightarrow> real \<Rightarrow> real \<times> StreamingSmoother" where
  "smooth_update s x =
     (let v = (case sm_value s of
                 None \<Rightarrow> x
               | Some prev \<Rightarrow> alpha s * x + (1 - alpha s) * prev)
      in (v, s\<lparr>sm_value := Some v\<rparr>))"

definition smooth_reset :: "StreamingSmoother \<Rightarrow> StreamingSmoother" where
  "smooth_reset s = s\<lparr>sm_value := None\<rparr>"

text \<open>The outputs of successive \<^verbatim>\<open>update\<close> calls on a sequence of inputs.\<close>

fun smooth_outputs :: "StreamingSmoother \<Rightarrow> real list \<Rightarrow> real list" where
  "smooth_outputs s [] = []"
| "smooth_outputs s (x # xs) =
     (let (v, s') = smooth_update s x in v # smooth_outputs s' xs)"


section \<open>StreamingRepCounter: the repetition detector\<close>

datatype rep_state = WAITING_FOR_PEAK | WAITING_FOR_VALLEY

text \<open>
  The exceptions a call can end with. \<open>Inl e\<close> as a result means that the call raises
  \<open>e\<close> and that no handler of the function catches it.
\<close>

datatype error = TypeError | AttributeError | QueueFull | ConnectionClosed

text \<open>
  \<^verbatim>\<open>class StreamingRepCounter\<close>, every field of \<^verbatim>\<open>__init__\<close>. The trackers are
  \<open>None\<close> until first set. \<^verbatim>\<open>rep_detection_samples\<close> receives the value of
  \<^verbatim>\<open>valley_sample_idx\<close>, whatever it is.
\<close>

record StreamingRepCounter =
  amplitude_threshold :: real
  min_samples_between_reps :: int
  baseline_window :: int
  state :: rep_state
  rep_count :: int
  samples_since_last_rep :: int
  current_peak :: "real option"
  current_valley :: "real option"
  peak_sample_idx :: "int option"
  valley_sample_idx :: "int option"
  recent_samples :: "real list"
  baseline :: real
  signal_history :: "real list"
  baseline_history :: "real list"
  state_history :: "rep_state list"
  rep_detection_samples :: "int option list"
  rep_amplitudes :: "real list"

definition StreamingRepCounter_init :: "real \<Rightarrow> int \<Rightarrow> int \<Rightarrow> StreamingRepCounter" where
  "StreamingRepCounter_init thr spacing window =
     \<lparr>amplitude_threshold = thr, min_samples_between_reps = spacing, baseline_window = window,
      state = WAITING_FOR_PEAK, rep_count = 0, samples_since_last_rep = 0,
      current_peak = None, current_valley = None,
      peak_sample_idx = None, valley_sample_idx = None,
      recent_samples = [], baseline = 0,
      signal_history = [], baseline_history = [], state_history = [],
      rep_detection_samples = [], rep_amplitudes = []\<rparr>"

text \<open>The dictionary \<^verbatim>\<open>process_sample\<close> returns; its keys carry the prefix \<open>res_\<close> where
  they would clash with a field of the counter.\<close>

record rep_result =
  res_rep_count :: int
  res_state :: rep_state
  res_baseline :: real
  rep_detected :: bool
  amplitude :: real

text \<open>
  \<^verbatim>\<open>np.mean\<close> of a non-empty list. For the empty list numpy returns NaN, which the
  reals do not have (HOL gives \<open>0 / 0 = 0\<close>); the window is empty after an append only
  when \<^verbatim>\<open>baseline_window\<close> is not positive, so the statements about the detector assume
  a positive window capacity.
\<close>

definition np_mean :: "real list \<Rightarrow> real" where
  "np_mean xs = sum_list xs / real (length xs)"

text \<open>The block ``Update adaptive baseline'' of \<^verbatim>\<open>process_sample\<close>:
  append, \<^verbatim>\<open>pop(0)\<close> when longer than the capacity, recompute the mean.\<close>

definition update_baseline :: "StreamingRepCounter \<Rightarrow> real \<Rightarrow> StreamingRepCounter" where
  "update_baseline c signal_value =
     (let appended = recent_samples c @ [signal_value];
          recent = (if int (length appended) > baseline_window c then tl appended else appended)
      in c\<lparr>recent_samples := recent, baseline := np_mean recent\<rparr>)"

text \<open>The branch \<^verbatim>\<open>if self.state == 'WAITING_FOR_PEAK'\<close>. The hysteresis margin is the
  literal 3 of the source.\<close>

definition waiting_for_peak :: "StreamingRepCounter \<Rightarrow> real \<Rightarrow> int \<Rightarrow> StreamingRepCounter" where
  "waiting_for_peak c signal_centered idx =
     (let c1 = (case current_peak c of
                  None \<Rightarrow> c\<lparr>current_peak := Some signal_centered, peak_sample_idx := Some idx\<rparr>
                | Some p \<Rightarrow>
                    if signal_centered > p
                    then c\<lparr>current_peak := Some signal_centered, peak_sample_idx := Some idx\<rparr>
                    else c)
      in case current_peak c1 of
           None \<Rightarrow> c1
         | Some p \<Rightarrow>
             if signal_centered < p - 3
             then c1\<lparr>state := WAITING_FOR_VALLEY,
                     current_valley := Some signal_centered,
                     valley_sample_idx := Some idx\<rparr>
             else c1)"

text \<open>
  The branch \<^verbatim>\<open>elif self.state == 'WAITING_FOR_VALLEY'\<close>. It returns the local variables
  \<^verbatim>\<open>rep_detected\<close> and \<^verbatim>\<open>amplitude\<close> with the updated counter. Comparing or
  subtracting with a tracker that is \<open>None\<close> raises \<^verbatim>\<open>TypeError\<close> in Python.
\<close>

definition waiting_for_valley ::
  "StreamingRepCounter \<Rightarrow> real \<Rightarrow> int \<Rightarrow> error + (bool \<times> real \<times> StreamingRepCounter)" where
  "waiting_for_valley c signal_centered idx =
     (case current_valley c of
        None \<Rightarrow> Inl TypeError
      | Some v \<Rightarrow>
          (let c1 = (if signal_centered < v
                     then c\<lparr>current_valley := Some signal_centered, valley_sample_idx := Some idx\<rparr>
                     else c);
               v1 = (if signal_centered < v then signal_centered else v)
           in if signal_centered > v1 + 3
              then (case current_peak c1 of
                      None \<Rightarrow> Inl TypeError
                    | Some p \<Rightarrow>
                        (let amp = p - v1;
                             counted = (amp > amplitude_threshold c1 \<and>
                                        samples_since_last_rep c1 > min_samples_between_reps c1);
                             c2 = (if counted
                                   then c1\<lparr>rep_count := rep_count c1 + 1,
                                           rep_detection_samples :=
                                             rep_detection_samples c1 @ [valley_sample_idx c1],
                                           rep_amplitudes := rep_amplitudes c1 @ [amp],
                                           samples_since_last_rep := 0\<rparr>
                                   else c1)
                         in Inr (counted, amp,
                                 c2\<lparr>state := WAITING_FOR_PEAK,
                                     current_peak := Some signal_centered,
                                     peak_sample_idx := Some idx,
                                     current_valley := None\<rparr>)))
              else Inr (False, 0, c1)))"

text \<open>The centered signal of a call: the input minus the baseline recomputed with it.\<close>

definition signal_centered_of :: "StreamingRepCounter \<Rightarrow> real \<Rightarrow> real" where
  "signal_centered_of c signal_value = signal_value - baseline (update_baseline c signal_value)"

text \<open>\<^verbatim>\<open>StreamingRepCounter.process_sample\<close>: the debounce counter is incremented first,
  then the baseline, the state machine, the histories, and the returned dictionary.\<close>

definition process_sample ::
  "StreamingRepCounter \<Rightarrow> real \<Rightarrow> int \<Rightarrow> error + (rep_result \<times> StreamingRepCounter)" where
  "process_sample c signal_value idx =
     (let c0 = c\<lparr>samples_since_last_rep := samples_since_last_rep c + 1\<rparr>;
          c1 = update_baseline c0 signal_value;
          signal_centered = signal_value - baseline c1
      in case (case state c1 of
                 WAITING_FOR_PEAK \<Rightarrow> Inr (False, 0, waiting_for_peak c1 signal_centered idx)
               | WAITING_FOR_VALLEY \<Rightarrow> waiting_for_valley c1 signal_centered idx) of
           Inl e \<Rightarrow> Inl e
         | Inr (detected, amp, c2) \<Rightarrow>
             (let c3 = c2\<lparr>signal_history := signal_history c2 @ [signal_value],
                          baseline_history := baseline_history c2 @ [baseline c2],
                          state_history := state_history c2 @ [state c2]\<rparr>
              in Inr (\<lparr>res_rep_count = rep_count c3,
                       res_state = state c3,
                       res_baseline = baseline c3,
                       rep_detected = detected,
                       amplitude = (if state c3 = WAITING_FOR_VALLEY then amp else 0)\<rparr>,
                      c3)))"

definition counter_reset :: "StreamingRepCounter \<Rightarrow> StreamingRepCounter" where
  "counter_reset c =
     StreamingRepCounter_init (amplitude_threshold c) (min_samples_between_reps c) (baseline_window c)"

text \<open>A sequence of calls, each with its signal value and sample index; the results of the
  calls in order and the final counter, or the first exception.\<close>

fun process_samples ::
  "StreamingRepCounter \<Rightarrow> (real \<times> int) list \<Rightarrow> error + (rep_result list \<times> StreamingRepCounter)" where
  "process_samples c [] = Inr ([], c)"
| "process_samples c ((v, i) # rest) =
     (case process_sample c v i of
        Inl e \<Rightarrow> Inl e
      | Inr (r, c') \<Rightarrow>
          (case process_samples c' rest of
             Inl e \<Rightarrow> Inl e
           | Inr (rs, c'') \<Rightarrow> Inr (r # rs, c'')))"


section \<open>StreamingPipeline: the orchestrator\<close>

record StreamingPipeline =
  pca :: StreamingPCA
  smoother :: StreamingSmoother
  counter :: StreamingRepCounter
  raw_history :: "vec3 list"
  pc1_raw_history :: "real list"
  pc1_smooth_history :: "real list"

definition StreamingPipeline_init :: "real \<Rightarrow> int \<Rightarrow> int \<Rightarrow> int \<Rightarrow> real \<Rightarrow> StreamingPipeline" where
  "StreamingPipeline_init thr spacing window pca_warmup smooth_alpha =
     \<lparr>pca = StreamingPCA_init pca_warmup,
      smoother = StreamingSmoother_init smooth_alpha,
      counter = StreamingRepCounter_init thr spacing window,
      raw_history = [], pc1_raw_history = [], pc1_smooth_history = []\<rparr>"

text \<open>\<^verbatim>\<open>StreamingPipeline.process_sample\<close>: projector, then smoother, then detector.\<close>

definition pipeline_process_sample ::
  "(mat3 \<Rightarrow> vec3) \<Rightarrow> StreamingPipeline \<Rightarrow> vec3 \<Rightarrow> int \<Rightarrow> error + (rep_result \<times> StreamingPipeline)" where
  "pipeline_process_sample eigh pl raw idx =
     (let (pc1_value, pca') = update eigh (pca pl) raw;
          (pc1_smooth, smoother') = smooth_update (smoother pl) pc1_value
      in case process_sample (counter pl) pc1_smooth idx of
           Inl e \<Rightarrow> Inl e
         | Inr (result, counter') \<Rightarrow>
             Inr (result,
                  pl\<lparr>pca := pca', smoother := smoother', counter := counter',
                     raw_history := raw_history pl @ [raw],
                     pc1_raw_history := pc1_raw_history pl @ [pc1_value],
                     pc1_smooth_history := pc1_smooth_history pl @ [pc1_smooth]\<rparr>))"


section \<open>RepServer: the session broker\<close>

text \<open>
  \<^verbatim>\<open>ws_server.py\<close>. A raw sample is the triple of integers the reader parses from a
  line. What the server cannot decide by itself is an environment: the eigenvector
  routine of the projector, which viewer connections have been closed by the peer (a send
  to one raises \<^verbatim>\<open>ConnectionClosed\<close>), and the classifier. \<open>env_classifier\<close> is \<open>None\<close>
  when \<^verbatim>\<open>_load_classifier()\<close> returns \<^verbatim>\<open>(None, None, None)\<close>; otherwise it is
  \<^verbatim>\<open>classify_exercise\<close> on the loaded model, giving \<open>Inr\<close> the predicted label or
  \<open>Inl\<close> the text of the exception it raises.
\<close>

type_synonym sample = "int \<times> int \<times> int"

record env =
  env_eigh :: "mat3 \<Rightarrow> vec3"
  env_closed :: "nat \<Rightarrow> bool"
  env_classifier :: "(vec3 list \<Rightarrow> string + string) option"

definition AUTO_DETECT_SAMPLES :: int where
  "AUTO_DETECT_SAMPLES = 200"

text \<open>The messages sent to viewers: the dictionaries handed to \<^verbatim>\<open>json.dumps\<close>, by
  their \<^verbatim>\<open>type\<close>. \<open>ExerciseDetected\<close> has the optional key \<^verbatim>\<open>error\<close>.\<close>

datatype message =
    Connected
  | Rep int real
  | Speed real string bool
  | SetBoundary int
  | Status int int
  | ExerciseDetected string int "string option"
  | ResetAck
  | AutoDetectStarted int

text \<open>Python's \<^verbatim>\<open>round(x, d)\<close>: to \<open>d\<close> decimals, a tie going to the even neighbour.\<close>

definition py_round :: "real \<Rightarrow> nat \<Rightarrow> real" where
  "py_round x d =
     (let s = x * 10 ^ d;
          f = \<lfloor>s\<rfloor>;
          r = s - real_of_int f;
          k = (if r < 1 / 2 then f else if r > 1 / 2 then f + 1 else if even f then f else f + 1)
      in real_of_int k / 10 ^ d)"

subsection \<open>The handoff queue\<close>

text \<open>
  \<^verbatim>\<open>asyncio.Queue(maxsize)\<close> as the server uses it: \<^verbatim>\<open>full()\<close> is false for a
  non-positive \<^verbatim>\<open>maxsize\<close>; \<^verbatim>\<open>put_nowait\<close> raises \<^verbatim>\<open>QueueFull\<close> on a full queue and
  appends otherwise.
\<close>

record Queue =
  maxsize :: int
  items :: "sample list"

definition Queue_init :: "int \<Rightarrow> Queue" where
  "Queue_init m = \<lparr>maxsize = m, items = []\<rparr>"

definition queue_full :: "Queue \<Rightarrow> bool" where
  "queue_full q = (if maxsize q \<le> 0 then False else int (length (items q)) \<ge> maxsize q)"

definition put_nowait :: "Queue \<Rightarrow> sample \<Rightarrow> error + Queue" where
  "put_nowait q x = (if queue_full q then Inl QueueFull else Inr (q\<lparr>items := items q @ [x]\<rparr>))"

subsection \<open>Server state\<close>

text \<open>\<^verbatim>\<open>class RepServer\<close> without its transport settings (serial port, baud rate, host,
  port, mock flag). A viewer is its connection handle, a number.\<close>

record RepServer =
  clients :: "nat set"
  pipeline :: "StreamingPipeline option"
  sample_idx :: int
  sample_queue :: "Queue option"
  running :: bool
  auto_detect_buffer :: "vec3 list option"

definition RepServer_init :: RepServer where
  "RepServer_init =
     \<lparr>clients = {}, pipeline = None, sample_idx = 0, sample_queue = None,
      running = False, auto_detect_buffer = None\<rparr>"

definition reset_pipeline :: "RepServer \<Rightarrow> RepServer" where
  "reset_pipeline st =
     st\<lparr>pipeline := Some (StreamingPipeline_init 21 20 50 30 (15 / 100)), sample_idx := 0\<rparr>"

text \<open>The state part of \<^verbatim>\<open>start\<close>: the flag and the bounded queue.\<close>

definition start :: "RepServer \<Rightarrow> RepServer" where
  "start st = st\<lparr>running := True, sample_queue := Some (Queue_init 1000)\<rparr>"

text \<open>
  What a reader thread does with a parsed sample, in \<^verbatim>\<open>_serial_reader\<close> and in
  \<^verbatim>\<open>_mock_reader\<close> alike:
  \<^verbatim>\<open>loop.call_soon_threadsafe(self.sample_queue.put_nowait, sample)\<close>.
  The reader looks up the bound method (on \<open>None\<close>, before \<^verbatim>\<open>start\<close>, that raises in the
  reader) and returns at once; the loop later runs \<^verbatim>\<open>put_nowait\<close> as a callback with
  nothing of the repository around it. An exception of a callback does not reach the
  reader and does not stop the loop: the loop passes it to its exception handler, which
  logs it. The result is the state after the callback and the exceptions so logged.
\<close>

definition produce_sample :: "RepServer \<Rightarrow> sample \<Rightarrow> error + (RepServer \<times> error list)" where
  "produce_sample st x =
     (case sample_queue st of
        None \<Rightarrow> Inl AttributeError
      | Some q \<Rightarrow>
          Inr (case put_nowait q x of
                 Inl err \<Rightarrow> (st, [err])
               | Inr q' \<Rightarrow> (st\<lparr>sample_queue := Some q'\<rparr>, [])))"

text \<open>
  \<^verbatim>\<open>_broadcast\<close>. The trace of a call is the message with the set of viewers that
  received it; viewers whose send raised \<^verbatim>\<open>ConnectionClosed\<close> leave the set. With no
  viewer the call returns at once: the message reached nobody.
\<close>

type_synonym event = "message \<times> nat set"

definition broadcast :: "(nat \<Rightarrow> bool) \<Rightarrow> RepServer \<Rightarrow> message \<Rightarrow> RepServer \<times> event list" where
  "broadcast gone st m =
     (if clients st = {} then (st, [(m, {})])
      else (let disconnected = {ws \<in> clients st. gone ws}
            in (st\<lparr>clients := clients st - disconnected\<rparr>, [(m, clients st - disconnected)])))"

subsection \<open>The consumer loop\<close>

text \<open>
  The block ``Auto-detect'' of \<^verbatim>\<open>_process_samples\<close>, for one dequeued sample: append to
  the open buffer; at \<^verbatim>\<open>AUTO_DETECT_SAMPLES\<close> close the buffer, read the repetition count,
  classify and broadcast.
\<close>

definition auto_detect :: "env \<Rightarrow> RepServer \<Rightarrow> sample \<Rightarrow> RepServer \<times> event list" where
  "auto_detect e st x =
     (case auto_detect_buffer st of
        None \<Rightarrow> (st, [])
      | Some buf \<Rightarrow>
          (case x of (ax, ay, az) \<Rightarrow>
             (let buffer = buf @ [(real_of_int ax, real_of_int ay, real_of_int az)]
              in if int (length buffer) \<ge> AUTO_DETECT_SAMPLES
                 then
                   (let st1 = st\<lparr>auto_detect_buffer := None\<rparr>;
                        cnt = (case pipeline st1 of
                                 None \<Rightarrow> 0
                               | Some pl \<Rightarrow> rep_count (counter pl))
                    in case env_classifier e of
                         None \<Rightarrow>
                           broadcast (env_closed e) st1 (ExerciseDetected ''bicep_curl'' cnt None)
                       | Some classify \<Rightarrow>
                           if length buffer \<ge> 10
                           then (case classify buffer of
                                   Inr pred \<Rightarrow>
                                     broadcast (env_closed e) st1 (ExerciseDetected pred cnt None)
                                 | Inl err \<Rightarrow>
                                     broadcast (env_closed e) st1
                                       (ExerciseDetected ''bicep_curl'' cnt (Some err)))
                           else broadcast (env_closed e) st1
                                  (ExerciseDetected ''bicep_curl'' cnt None))
                 else (st\<lparr>auto_detect_buffer := Some buffer\<rparr>, []))))"

text \<open>
  The body of the \<^verbatim>\<open>while\<close> loop of \<^verbatim>\<open>_process_samples\<close> for one dequeued sample.
  The result dictionary of the detector has no key \<^verbatim>\<open>speed_deviation\<close>, \<^verbatim>\<open>phase\<close>,
  \<^verbatim>\<open>is_active\<close> or \<^verbatim>\<open>set_boundary\<close>, so \<^verbatim>\<open>result.get\<close> yields the defaults
  written at the call.
\<close>

definition process_one :: "env \<Rightarrow> RepServer \<Rightarrow> sample \<Rightarrow> error + (RepServer \<times> event list)" where
  "process_one e st x =
     (let (st1, ev1) = auto_detect e st x
      in case pipeline st1 of
           None \<Rightarrow> Inr (st1, ev1)
         | Some pl \<Rightarrow>
             (case x of (ax, ay, az) \<Rightarrow>
                (case pipeline_process_sample (env_eigh e) pl
                        (real_of_int ax, real_of_int ay, real_of_int az) (sample_idx st1) of
                   Inl err \<Rightarrow> Inl err
                 | Inr (result, pl') \<Rightarrow>
                     (let st2 = st1\<lparr>pipeline := Some pl', sample_idx := sample_idx st1 + 1\<rparr>;
                          (st3, ev3) =
                            (if rep_detected result
                             then broadcast (env_closed e) st2
                                    (Rep (res_rep_count result) (py_round (amplitude result) 2))
                             else (st2, []));
                          (st4, ev4) =
                            (if sample_idx st3 mod 3 = 0
                             then broadcast (env_closed e) st3
                                    (Speed (py_round 0 3) ''concentric'' False)
                             else (st3, []));
                          set_boundary = False;
                          (st5, ev5) =
                            (if set_boundary
                             then broadcast (env_closed e) st4 (SetBoundary (res_rep_count result))
                             else (st4, []));
                          (st6, ev6) =
                            (if sample_idx st5 mod 50 = 0
                             then broadcast (env_closed e) st5
                                    (Status (sample_idx st5) (res_rep_count result))
                             else (st5, []))
                      in Inr (st6, ev1 @ ev3 @ ev4 @ ev5 @ ev6)))))"

text \<open>The loop over a sequence of dequeued samples, in arrival order.\<close>

fun process_stream :: "env \<Rightarrow> RepServer \<Rightarrow> sample list \<Rightarrow> error + (RepServer \<times> event list)" where
  "process_stream e st [] = Inr (st, [])"
| "process_stream e st (x # xs) =
     (case process_one e st x of
        Inl err \<Rightarrow> Inl err
      | Inr (st', ev) \<Rightarrow>
          (case process_stream e st' xs of
             Inl err \<Rightarrow> Inl err
           | Inr (st'', ev') \<Rightarrow> Inr (st'', ev @ ev')))"

subsection \<open>Viewer connections\<close>

text \<open>
  A message received from a viewer, as \<^verbatim>\<open>json.loads\<close> sees it: \<open>NotJson\<close> is a text
  on which it raises \<^verbatim>\<open>JSONDecodeError\<close>, \<open>Json v\<close> a text it parses to the value \<open>v\<close>
  (an object to a \<^verbatim>\<open>dict\<close>, an array to a \<^verbatim>\<open>list\<close>, and so on).
\<close>

datatype json =
    JNull
  | JBool bool
  | JNum real
  | JStr string
  | JArr "json list"
  | JObj "(string \<times> json) list"

datatype frame = NotJson | Json json

text \<open>\<^verbatim>\<open>dict.get\<close> on a parsed object: of a repeated key \<^verbatim>\<open>json.loads\<close> keeps the last.\<close>

definition dict_get :: "(string \<times> json) list \<Rightarrow> string \<Rightarrow> json option" where
  "dict_get kvs k = map_of (rev kvs) k"

text \<open>
  The body of \<^verbatim>\<open>async for message in websocket\<close> for one message of viewer \<open>ws\<close>:
  the new state, the replies sent, and the exception that leaves the body, if any. Only
  \<^verbatim>\<open>JSONDecodeError\<close> is caught inside the loop; \<^verbatim>\<open>.get\<close> on a value that is not a
  \<^verbatim>\<open>dict\<close> raises \<^verbatim>\<open>AttributeError\<close>.
\<close>

definition handle_message ::
  "(nat \<Rightarrow> bool) \<Rightarrow> RepServer \<Rightarrow> nat \<Rightarrow> frame \<Rightarrow> RepServer \<times> message list \<times> error option" where
  "handle_message gone st ws fr =
     (case fr of
        NotJson \<Rightarrow> (st, [], None)
      | Json data \<Rightarrow>
          (case data of
             JObj kvs \<Rightarrow>
               if dict_get kvs ''action'' = Some (JStr ''reset'')
               then (let st' = (reset_pipeline st)\<lparr>auto_detect_buffer := None\<rparr>
                     in if gone ws then (st', [], Some ConnectionClosed)
                        else (st', [ResetAck], None))
               else if dict_get kvs ''action'' = Some (JStr ''start_auto_detect'')
               then (let st' = st\<lparr>auto_detect_buffer := Some []\<rparr>
                     in if gone ws then (st', [], Some ConnectionClosed)
                        else (st', [AutoDetectStarted AUTO_DETECT_SAMPLES], None))
               else (st, [], None)
           | _ \<Rightarrow> (st, [], Some AttributeError)))"

text \<open>The \<^verbatim>\<open>async for\<close> loop over the messages a viewer sends: it ends with the first
  exception, and later messages are not read.\<close>

fun message_loop ::
  "(nat \<Rightarrow> bool) \<Rightarrow> RepServer \<Rightarrow> nat \<Rightarrow> frame list \<Rightarrow> RepServer \<times> message list \<times> error option" where
  "message_loop gone st ws [] = (st, [], None)"
| "message_loop gone st ws (fr # frs) =
     (case handle_message gone st ws fr of
        (st', out, Some err) \<Rightarrow> (st', out, Some err)
      | (st', out, None) \<Rightarrow>
          (case message_loop gone st' ws frs of
             (st'', out', r) \<Rightarrow> (st'', out @ out', r)))"

text \<open>
  \<^verbatim>\<open>_handle_client\<close> for a viewer that sends the given messages and then disconnects.
  The first send is outside the \<^verbatim>\<open>try\<close>. Inside it \<^verbatim>\<open>ConnectionClosed\<close> is caught, any
  other exception leaves the handler, and \<^verbatim>\<open>finally\<close> removes the viewer either way:
  when the handler is left, by return or by exception, the connection is over.
\<close>

definition handle_client ::
  "(nat \<Rightarrow> bool) \<Rightarrow> RepServer \<Rightarrow> nat \<Rightarrow> frame list \<Rightarrow> RepServer \<times> message list \<times> error option" where
  "handle_client gone st ws frs =
     (let st1 = reset_pipeline (st\<lparr>clients := insert ws (clients st)\<rparr>)
      in if gone ws then (st1, [], Some ConnectionClosed)
         else (case message_loop gone st1 ws frs of
                 (st2, out, r) \<Rightarrow>
                   (st2\<lparr>clients := clients st2 - {ws}\<rparr>, Connected # out,
                    (case r of
                       Some ConnectionClosed \<Rightarrow> None
                     | _ \<Rightarrow> r))))"


section \<open>Well-formed detector states\<close>

text \<open>
  While the detector waits for a valley, both trackers hold a number: the state is only
  entered with a peak on record and a valley just seeded. The calls of a detector that
  starts from \<^verbatim>\<open>__init__\<close> keep it so, and then no call raises.
\<close>

definition trackers_set :: "StreamingRepCounter \<Rightarrow> bool" where
  "trackers_set c =
     (state c = WAITING_FOR_VALLEY \<longrightarrow> current_valley c \<noteq> None \<and> current_peak c \<noteq> None)"


section \<open>Sessions, environments and states used in the statements\<close>

text \<open>The repetition count as \<^verbatim>\<open>_process_samples\<close> reads it when a buffer is full:
  that of the detector of the live pipeline, 0 without a pipeline.\<close>

definition current_rep_count :: "RepServer \<Rightarrow> int" where
  "current_rep_count st =
     (case pipeline st of None \<Rightarrow> 0 | Some pl \<Rightarrow> rep_count (counter pl))"

text \<open>A server whose pipeline, if it has one, holds a well-formed detector.\<close>

definition session_ok :: "RepServer \<Rightarrow> bool" where
  "session_ok st =
     (case pipeline st of None \<Rightarrow> True | Some pl \<Rightarrow> trackers_set (counter pl))"

text \<open>What an iteration of the consumer loop leaves of the orchestrator: the pipeline and
  the sample index, or the exception that ends the loop.\<close>

definition orchestrator_of ::
  "error + (RepServer \<times> event list) \<Rightarrow> error + (StreamingPipeline option \<times> int)" where
  "orchestrator_of r =
     (case r of Inl err \<Rightarrow> Inl err | Inr (st, ev) \<Rightarrow> Inr (pipeline st, sample_idx st))"

text \<open>
  The message that the specification's sentence on a full classification buffer describes,
  in its words: the classifier is invoked and its label is broadcast with the repetition
  count; if the classifier fails, the fallback label is broadcast with an error annotation
  and the same count. Where no classifier can be loaded this reads the sentence in its
  weakest sense, as a failure: a fallback with some error annotation.
\<close>

definition claimed_exercise_message :: "env \<Rightarrow> vec3 list \<Rightarrow> int \<Rightarrow> message \<Rightarrow> bool" where
  "claimed_exercise_message e buffer cnt m =
     (case env_classifier e of
        None \<Rightarrow>
          (case m of
             ExerciseDetected label c (Some err) \<Rightarrow> label = ''bicep_curl'' \<and> c = cnt
           | _ \<Rightarrow> False)
      | Some classify \<Rightarrow>
          (case classify buffer of
             Inr label \<Rightarrow> m = ExerciseDetected label cnt None
           | Inl err \<Rightarrow> m = ExerciseDetected ''bicep_curl'' cnt (Some err)))"

text \<open>Concrete environments: an eigenvector routine that always answers the third axis,
  viewers that never disconnect, a classifier that raises, and no classifier at all.\<close>

definition fixed_axis :: "mat3 \<Rightarrow> vec3" where
  "fixed_axis cov = (0, 0, 1)"

definition all_open :: "nat \<Rightarrow> bool" where
  "all_open ws = False"

definition failing_classifier :: "vec3 list \<Rightarrow> string + string" where
  "failing_classifier buffer = Inl ''Data too short to classify''"

definition env_no_model :: env where
  "env_no_model = \<lparr>env_eigh = fixed_axis, env_closed = all_open, env_classifier = None\<rparr>"

definition env_failing_model :: env where
  "env_failing_model =
     \<lparr>env_eigh = fixed_axis, env_closed = all_open, env_classifier = Some failing_classifier\<rparr>"

text \<open>
  The outcomes that the specification's sentence on backpressure allows when one more
  sample is produced into a full queue, in its words: no fault is raised, and the queue is
  as one of the three policies leaves it. Blocking the producer and dropping the newest
  sample both leave the queue as it was at that moment; dropping the oldest removes the
  head and appends the sample.
\<close>

definition claimed_overflow_outcome ::
  "RepServer \<Rightarrow> sample \<Rightarrow> error + (RepServer \<times> error list) \<Rightarrow> bool" where
  "claimed_overflow_outcome st x out =
     (case out of
        Inl err \<Rightarrow> False
      | Inr (st', logged) \<Rightarrow>
          logged = [] \<and>
          (case sample_queue st of
             None \<Rightarrow> False
           | Some q \<Rightarrow>
               st' = st \<or>
               st' = st\<lparr>sample_queue := Some (q\<lparr>items := tl (items q) @ [x]\<rparr>)\<rparr>))"

text \<open>A started server whose queue holds its 1000 samples.\<close>

definition full_server :: RepServer where
  "full_server =
     (start RepServer_init)
       \<lparr>sample_queue := Some \<lparr>maxsize = 1000, items = replicate 1000 (0, 0, 0)\<rparr>\<rparr>"

text \<open>A started server with viewer 1, a new session, and a classification buffer one
  sample short of \<^verbatim>\<open>AUTO_DETECT_SAMPLES\<close>.\<close>

definition collecting_session :: RepServer where
  "collecting_session =
     (reset_pipeline (start RepServer_init))
       \<lparr>clients := {1}, auto_detect_buffer := Some (replicate 199 (0, 0, 0))\<rparr>"


section \<open>The projector's running mean\<close>

lemma update_n: "pca_n (snd (update eigh p x)) = pca_n p + 1"
  by (simp add: update_def Let_def)

lemma update_mean:
  "pca_mean (snd (update eigh p x)) =
     vadd (pca_mean p) (vdiv (vsub x (pca_mean p)) (real_of_int (pca_n p + 1)))"
  by (simp add: update_def Let_def)

lemma update_all_n: "pca_n (update_all eigh p xs) = pca_n p + int (length xs)"
  by (induction xs arbitrary: p) (simp_all add: update_n)

text \<open>One Welford step keeps \<open>n * mean\<close> equal to the sum of the samples seen.\<close>

lemma welford_step:
  assumes "0 \<le> k" and "vscale (real_of_int k) m = s"
  shows "vscale (real_of_int (k + 1)) (vadd m (vdiv (vsub x m) (real_of_int (k + 1)))) = vadd x s"
proof -
  obtain m1 m2 m3 where m: "m = (m1, m2, m3)" by (cases m)
  obtain x1 x2 x3 where x: "x = (x1, x2, x3)" by (cases x)
  have nz: "real_of_int k + 1 \<noteq> 0" using assms(1) by linarith
  show ?thesis using assms(2) nz unfolding m x
    by (auto simp: field_simps)
qed

lemma update_all_sum:
  assumes "0 \<le> pca_n p" and "vscale (real_of_int (pca_n p)) (pca_mean p) = s"
  shows "vscale (real_of_int (pca_n (update_all eigh p xs))) (pca_mean (update_all eigh p xs))
           = vadd (vsum xs) s"
  using assms
proof (induction xs arbitrary: p s)
  case Nil
  then show ?case by (cases s) (simp add: zeros3_def)
next
  case (Cons x xs)
  let ?q = "snd (update eigh p x)"
  have q0: "0 \<le> pca_n ?q" using Cons.prems(1) by (simp add: update_n)
  have qs: "vscale (real_of_int (pca_n ?q)) (pca_mean ?q) = vadd x s"
    using welford_step[OF Cons.prems(1) Cons.prems(2)] by (simp add: update_n update_mean)
  have "vscale (real_of_int (pca_n (update_all eigh ?q xs))) (pca_mean (update_all eigh ?q xs))
           = vadd (vsum xs) (vadd x s)"
    by (rule Cons.IH[OF q0 qs])
  moreover have "vadd (vsum xs) (vadd x s) = vadd (vadd x (vsum xs)) s"
    by (cases x; cases s; cases "vsum xs") simp
  ultimately show ?case by simp
qed

lemma vscale_inv: "k \<noteq> 0 \<Longrightarrow> vscale k m = s \<Longrightarrow> m = vdiv s k"
  by (cases m; cases s) (auto simp: field_simps)

text \<open>
  Claim C7. After the projector has been fed a non-empty sequence of samples from its
  initial state, one \<^verbatim>\<open>update\<close> each, its running mean is the component-wise sum of the
  samples divided by their number: the exact arithmetic mean, over the reals, for every
  warm-up setting and every eigenvector routine.
\<close>

theorem running_mean_exact:
  assumes "xs \<noteq> []"
  shows "pca_mean (update_all eigh (StreamingPCA_init w) xs) = vdiv (vsum xs) (real (length xs))"
proof -
  let ?p = "StreamingPCA_init w"
  have "vscale (real_of_int (pca_n (update_all eigh ?p xs))) (pca_mean (update_all eigh ?p xs))
          = vadd (vsum xs) zeros3"
    by (rule update_all_sum) (simp_all add: StreamingPCA_init_def zeros3_def)
  moreover have "vadd (vsum xs) zeros3 = vsum xs" by (cases "vsum xs") (simp add: zeros3_def)
  moreover have "pca_n (update_all eigh ?p xs) = int (length xs)"
    by (simp add: update_all_n StreamingPCA_init_def)
  ultimately have "vscale (real (length xs)) (pca_mean (update_all eigh ?p xs)) = vsum xs"
    by simp
  moreover have "real (length xs) \<noteq> 0" using assms by simp
  ultimately show ?thesis by (rule vscale_inv[rotated])
qed

theorem running_mean_exact_witness:
  "[(1, 2, 3), (3, 6, 0)] \<noteq> ([] :: vec3 list) \<and>
   pca_mean (update_all (\<lambda>cov. (0, 0, 1)) (StreamingPCA_init 30) [(1, 2, 3), (3, 6, 0)])
     = (2, 4, 3 / 2)"
  using running_mean_exact[of "[(1, 2, 3), (3, 6, 0)]" "\<lambda>cov. (0, 0, 1)" 30]
  by (simp add: zeros3_def)


section \<open>The projector's first output\<close>

text \<open>
  Claim C10. The first \<^verbatim>\<open>update\<close> of a projector in its initial state returns exactly 0,
  whatever the sample: the Welford step makes the mean equal to the sample, so the centered
  sample is the zero vector. In the warm-up branch the result is its norm; with a warm-up of
  at most 1 it is its product with the selected eigenvector, which is 0 as well.
\<close>

theorem first_update_zero: "fst (update eigh (StreamingPCA_init w) x) = 0"
proof -
  obtain x1 x2 x3 where x: "x = (x1, x2, x3)" by (cases x)
  have "dot zeros3 v = 0" for v by (cases v) (simp add: zeros3_def)
  then show ?thesis unfolding x
    by (auto simp: update_def Let_def StreamingPCA_init_def zeros3_def linalg_norm_def
             split: option.splits)
qed


section \<open>Causality of the smoother\<close>

lemma smooth_outputs_take:
  "smooth_outputs s (take k xs) = take k (smooth_outputs s xs)"
proof (induction xs arbitrary: s k)
  case Nil
  then show ?case by simp
next
  case (Cons x xs)
  show ?case by (cases k) (simp_all add: Cons.IH split: prod.splits)
qed

text \<open>
  Claim C8. Two input sequences that agree on every index up to and including \<open>k\<close>
  (they have the same first \<open>k + 1\<close> elements) give, from a freshly constructed smoother,
  the same outputs at every index up to and including \<open>k\<close>; and those outputs are the
  outputs on the input truncated after index \<open>k\<close>.
\<close>

theorem smoother_causal:
  assumes "take (Suc k) xs = take (Suc k) ys"
  shows "take (Suc k) (smooth_outputs (StreamingSmoother_init a) xs)
           = take (Suc k) (smooth_outputs (StreamingSmoother_init a) ys)
       \<and> take (Suc k) (smooth_outputs (StreamingSmoother_init a) xs)
           = smooth_outputs (StreamingSmoother_init a) (take (Suc k) xs)"
  using assms by (simp flip: smooth_outputs_take)

theorem smoother_causal_witness:
  "take (Suc 1) [10, 20, 30] = take (Suc 1) [10, 20, 99 :: real] \<and>
   take (Suc 1) (smooth_outputs (StreamingSmoother_init (1 / 2)) [10, 20, 30]) = [10, 15] \<and>
   take (Suc 1) (smooth_outputs (StreamingSmoother_init (1 / 2)) [10, 20, 99]) = [10, 15]"
  using smoother_causal[of 1 "[10, 20, 30]" "[10, 20, 99]" "1 / 2"]
  by (simp add: smooth_update_def StreamingSmoother_init_def)


section \<open>The detector: calls never raise from a fresh state\<close>

lemmas detector_defs = process_sample_def update_baseline_def np_mean_def
  waiting_for_peak_def waiting_for_valley_def Let_def

lemma process_sample_returns:
  assumes "trackers_set c"
  shows "\<exists>r c'. process_sample c v i = Inr (r, c') \<and> trackers_set c'"
  using assms
  by (cases "state c")
     (auto simp: detector_defs trackers_set_def split: option.splits if_splits)

lemma process_sample_config:
  assumes "process_sample c v i = Inr (r, c')"
  shows "baseline_window c' = baseline_window c"
  using assms
  by (cases "state c") (auto simp: detector_defs split: option.splits if_splits)

lemma process_sample_window:
  assumes "process_sample c v i = Inr (r, c')"
  shows "recent_samples c' = recent_samples (update_baseline c v)"
  using assms
  by (cases "state c") (auto simp: detector_defs split: option.splits if_splits)

lemma update_baseline_length:
  assumes "0 < baseline_window c" and "int (length (recent_samples c)) \<le> baseline_window c"
  shows "int (length (recent_samples (update_baseline c v))) \<le> baseline_window c"
  using assms by (auto simp: update_baseline_def Let_def)

lemma update_baseline_evict:
  assumes "0 < baseline_window c" and "int (length (recent_samples c)) = baseline_window c"
  shows "recent_samples (update_baseline c v) = tl (recent_samples c) @ [v]"
  using assms by (cases "recent_samples c") (auto simp: update_baseline_def Let_def)

lemma update_baseline_admit:
  assumes "int (length (recent_samples c)) < baseline_window c"
  shows "recent_samples (update_baseline c v) = recent_samples c @ [v]"
  using assms by (auto simp: update_baseline_def Let_def)

lemma process_samples_invariant:
  assumes "trackers_set c" and "0 < baseline_window c"
      and "int (length (recent_samples c)) \<le> baseline_window c"
  shows "\<exists>rs c'. process_samples c calls = Inr (rs, c') \<and> trackers_set c' \<and>
           baseline_window c' = baseline_window c \<and>
           int (length (recent_samples c')) \<le> baseline_window c'"
  using assms
proof (induction calls arbitrary: c)
  case Nil
  then show ?case by simp
next
  case (Cons call calls)
  obtain v i where call: "call = (v, i)" by (cases call)
  obtain r c1 where step: "process_sample c v i = Inr (r, c1)" and t1: "trackers_set c1"
    using process_sample_returns[OF Cons.prems(1)] by blast
  have w1: "baseline_window c1 = baseline_window c" by (rule process_sample_config[OF step])
  have l1: "int (length (recent_samples c1)) \<le> baseline_window c1"
    using update_baseline_length[OF Cons.prems(2,3)] process_sample_window[OF step] w1 by simp
  obtain rs c' where rest: "process_samples c1 calls = Inr (rs, c')" and t': "trackers_set c'"
    and w': "baseline_window c' = baseline_window c1"
    and l': "int (length (recent_samples c')) \<le> baseline_window c'"
    using Cons.IH[OF t1 _ l1] Cons.prems(2) w1 by auto
  show ?case using step rest t' w' l' w1 by (simp add: call)
qed


section \<open>The bounded baseline window\<close>

text \<open>
  Claim C9. Take a detector constructed with a positive window capacity \<open>w\<close> and any
  sequence of calls. The calls all return; after them the window holds at most \<open>w\<close>
  samples; and one more call with signal \<open>v\<close> returns as well with at most \<open>w\<close> samples
  in the window: if the window was at capacity the new window is the old one without its
  oldest sample followed by \<open>v\<close>, otherwise it is the old one followed by \<open>v\<close>.
\<close>

theorem baseline_window_bounded:
  assumes "0 < w"
  shows "\<exists>rs c. process_samples (StreamingRepCounter_init thr sp w) calls = Inr (rs, c) \<and>
           int (length (recent_samples c)) \<le> w \<and>
           (\<exists>r c'. process_sample c v i = Inr (r, c') \<and>
              int (length (recent_samples c')) \<le> w \<and>
              (if int (length (recent_samples c)) = w
               then recent_samples c' = tl (recent_samples c) @ [v]
               else recent_samples c' = recent_samples c @ [v]))"
proof -
  let ?c0 = "StreamingRepCounter_init thr sp w"
  have "trackers_set ?c0" "0 < baseline_window ?c0"
       "int (length (recent_samples ?c0)) \<le> baseline_window ?c0"
    using assms by (simp_all add: trackers_set_def StreamingRepCounter_init_def)
  from process_samples_invariant[OF this, of calls]
  obtain rs c where run: "process_samples ?c0 calls = Inr (rs, c)" and t: "trackers_set c"
    and w0: "baseline_window c = baseline_window ?c0"
    and l: "int (length (recent_samples c)) \<le> baseline_window c"
    by blast
  have w: "baseline_window c = w" using w0 by (simp add: StreamingRepCounter_init_def)
  obtain r c' where step: "process_sample c v i = Inr (r, c')"
    using process_sample_returns[OF t] by blast
  have pos: "0 < baseline_window c" using w assms by simp
  have win: "recent_samples c' = recent_samples (update_baseline c v)"
    by (rule process_sample_window[OF step])
  have "int (length (recent_samples c')) \<le> w"
    using update_baseline_length[OF pos l] win w by simp
  moreover have "recent_samples c' = tl (recent_samples c) @ [v]"
    if "int (length (recent_samples c)) = w"
    using update_baseline_evict[OF pos] that w win by simp
  moreover have "recent_samples c' = recent_samples c @ [v]"
    if "int (length (recent_samples c)) \<noteq> w"
    using update_baseline_admit[of c v] that l w win by simp
  ultimately show ?thesis using run step l w by auto
qed

theorem baseline_window_bounded_witness:
  "(0::int) < 2 \<and>
   (\<exists>rs c. process_samples (StreamingRepCounter_init 21 20 2) [(1, 0), (2, 1)] = Inr (rs, c) \<and>
      recent_samples c = [1, 2] \<and>
      (\<exists>r c'. process_sample c 3 2 = Inr (r, c') \<and> recent_samples c' = [2, 3]))"
proof -
  obtain rs c r c' where
    run: "process_samples (StreamingRepCounter_init 21 20 2) [(1, 0), (2, 1)] = Inr (rs, c)"
    and step: "process_sample c 3 2 = Inr (r, c')"
    and ev: "if int (length (recent_samples c)) = 2
             then recent_samples c' = tl (recent_samples c) @ [3]
             else recent_samples c' = recent_samples c @ [3]"
    using baseline_window_bounded[of 2 21 20 "[(1, 0), (2, 1)]" 3 2] by auto
  have "recent_samples c = [1, 2]"
    using run by (auto simp: detector_defs StreamingRepCounter_init_def)
  then show ?thesis using run step ev by auto
qed


section \<open>The amplitude a call reports\<close>

text \<open>
  The returned dictionary takes its amplitude from the local variable only when the state
  after the call is \<^verbatim>\<open>WAITING_FOR_VALLEY\<close>. The variable is assigned in one place, the
  transition that leaves that state, so the reported amplitude is 0 on every call.
\<close>

lemma amplitude_field_zero:
  assumes "process_sample c v i = Inr (r, c')"
  shows "amplitude r = 0"
  using assms
  by (cases "state c")
     (auto simp: detector_defs split: option.splits if_splits)

text \<open>
  Claim C1 says that a call returning \<^verbatim>\<open>rep_detected = True\<close> reports the peak-to-valley
  amplitude of the oscillation just completed, a value above the threshold. The detector
  of the server (threshold 21, spacing 20, window 50) is fed 18 samples of 0 and then 100,
  0, 100. The last call detects the first repetition and appends the amplitude 1895/19 to
  \<^verbatim>\<open>rep_amplitudes\<close>, yet the amplitude it returns is 0, which is below the threshold.
\<close>

theorem detected_amplitude_reported_zero:
  "(case process_samples (StreamingRepCounter_init 21 20 50)
      [(0, 0), (0, 1), (0, 2), (0, 3), (0, 4), (0, 5), (0, 6), (0, 7), (0, 8), (0, 9),
       (0, 10), (0, 11), (0, 12), (0, 13), (0, 14), (0, 15), (0, 16), (0, 17),
       (100, 18), (0, 19), (100, 20)] of
      Inl e \<Rightarrow> False
    | Inr (rs, c) \<Rightarrow>
        rep_detected (last rs) \<and> res_rep_count (last rs) = 1 \<and>
        amplitude (last rs) = 0 \<and>
        rep_amplitudes c = [1895 / 19] \<and>
        amplitude_threshold c = 21)"
  by (simp add: detector_defs StreamingRepCounter_init_def)


section \<open>When a repetition is counted\<close>

text \<open>
  Claim C2. For a call that returns, on a detector with a positive window capacity, the
  repetition count grows by one exactly when the detector was waiting for a valley, the
  centered signal of the call is more than the margin 3 above the tracked valley (the old
  valley, lowered to the centered signal first if that is smaller), the peak minus that
  valley is strictly above the amplitude threshold, and the debounce counter, incremented
  for this call, is strictly above the minimum spacing. That is also exactly when the call
  reports a detection. Otherwise the count is unchanged; in particular a call made while
  waiting for a peak, where the peak-to-valley transition happens, never changes it.
\<close>

theorem rep_count_increment:
  assumes "process_sample c v i = Inr (r, c')" and "0 < baseline_window c"
  shows "(rep_count c' = rep_count c + 1 \<longleftrightarrow>
            state c = WAITING_FOR_VALLEY \<and>
            (\<exists>vl pk. current_valley c = Some vl \<and> current_peak c = Some pk \<and>
               signal_centered_of c v > min vl (signal_centered_of c v) + 3 \<and>
               pk - min vl (signal_centered_of c v) > amplitude_threshold c \<and>
               samples_since_last_rep c + 1 > min_samples_between_reps c))
       \<and> (rep_detected r \<longleftrightarrow> rep_count c' = rep_count c + 1)
       \<and> (rep_count c' = rep_count c \<or> rep_count c' = rep_count c + 1)
       \<and> (state c = WAITING_FOR_PEAK \<longrightarrow> rep_count c' = rep_count c)"
  using assms(1)
  by (cases "state c")
     (auto simp: detector_defs signal_centered_of_def min_def split: option.splits if_splits)

theorem rep_count_increment_witness:
  "(\<exists>r c'. process_sample
       ((StreamingRepCounter_init 21 20 50)
          \<lparr>state := WAITING_FOR_VALLEY, samples_since_last_rep := 25,
           current_peak := Some 30, current_valley := Some (- 10),
           peak_sample_idx := Some 3, valley_sample_idx := Some 5,
           recent_samples := [0]\<rparr>) 40 7 = Inr (r, c') \<and>
     rep_detected r \<and> rep_count c' = 1)
   \<and> 0 < baseline_window
         ((StreamingRepCounter_init 21 20 50)
            \<lparr>state := WAITING_FOR_VALLEY, samples_since_last_rep := 25,
             current_peak := Some 30, current_valley := Some (- 10),
             peak_sample_idx := Some 3, valley_sample_idx := Some 5,
             recent_samples := [0]\<rparr>)"
proof -
  let ?c = "(StreamingRepCounter_init 21 20 50)
          \<lparr>state := WAITING_FOR_VALLEY, samples_since_last_rep := 25,
           current_peak := Some 30, current_valley := Some (- 10),
           peak_sample_idx := Some 3, valley_sample_idx := Some 5,
           recent_samples := [0]\<rparr>"
  have pos: "0 < baseline_window ?c" by (simp add: StreamingRepCounter_init_def)
  have "trackers_set ?c" by (simp add: trackers_set_def)
  then obtain r c' where step: "process_sample ?c 40 7 = Inr (r, c')"
    using process_sample_returns[of ?c 40 7] by blast
  have sc: "signal_centered_of ?c 40 = 20"
    by (simp add: signal_centered_of_def update_baseline_def np_mean_def Let_def
                  StreamingRepCounter_init_def)
  have "rep_count c' = rep_count ?c + 1 \<and> rep_detected r"
    using rep_count_increment[OF step pos] sc by (simp add: StreamingRepCounter_init_def)
  then show ?thesis using step by (simp add: StreamingRepCounter_init_def)
qed


section \<open>Overflow of the handoff queue\<close>

text \<open>
  Claim C3, as the code has it. On a server with a queue, producing a sample has one
  outcome, a function of the queue and the sample. If the queue is full, \<^verbatim>\<open>put_nowait\<close>
  raises \<^verbatim>\<open>QueueFull\<close> inside the loop's callback, where no code of the repository
  handles it and the loop's exception handler logs it; the server state, the queue with
  it, is unchanged, so the newest sample is the one dropped, and the reader sees no
  exception. If the queue is not full, the sample is appended at the tail and nothing is
  logged. No reader, comment or docstring of the source names this as a policy.
\<close>

theorem full_queue_drops_newest:
  assumes "sample_queue st = Some q"
  shows "produce_sample st x =
           Inr (if queue_full q then (st, [QueueFull])
                else (st\<lparr>sample_queue := Some (q\<lparr>items := items q @ [x]\<rparr>)\<rparr>, []))"
  using assms by (simp add: produce_sample_def put_nowait_def)

theorem full_queue_drops_newest_witness:
  "sample_queue full_server = Some \<lparr>maxsize = 1000, items = replicate 1000 (0, 0, 0)\<rparr> \<and>
   queue_full \<lparr>maxsize = 1000, items = replicate 1000 (0, 0, 0)\<rparr> \<and>
   produce_sample full_server (1, 2, 3) = Inr (full_server, [QueueFull])"
proof -
  have q: "sample_queue full_server = Some \<lparr>maxsize = 1000, items = replicate 1000 (0, 0, 0)\<rparr>"
    by (simp add: full_server_def)
  have f: "queue_full \<lparr>maxsize = 1000, items = replicate 1000 (0, 0, 0)\<rparr>"
    by (simp add: queue_full_def)
  show ?thesis using full_queue_drops_newest[OF q, of "(1, 2, 3)"] q f by simp
qed

text \<open>
  The sentence as the specification words it fails on the full queue: the attempt to
  enqueue raises a fault that nothing in the program handles, so the outcome is none of
  those the sentence allows.
\<close>

theorem full_queue_fault_counterexample:
  "\<not> claimed_overflow_outcome full_server (1, 2, 3) (produce_sample full_server (1, 2, 3))"
  by (simp add: claimed_overflow_outcome_def produce_sample_def put_nowait_def queue_full_def
                full_server_def)


section \<open>Messages from a viewer that are not requests\<close>

text \<open>A text that is not JSON is ignored: nothing changes and the loop goes on.\<close>

lemma not_json_ignored: "handle_message gone st ws NotJson = (st, [], None)"
  by (simp add: handle_message_def)

text \<open>
  Claim C4 says that every malformed message is ignored, the connection staying open and
  later messages still being processed. Viewer 1 connects to a started server and sends the
  JSON text \<^verbatim>\<open>[]\<close>, then a request to begin classification. The first message parses to a
  list, \<^verbatim>\<open>data.get\<close> raises \<^verbatim>\<open>AttributeError\<close>, the handler is left with that exception
  and the viewer is removed; the request is never read (no buffer is opened, no
  acknowledgment sent). With a text that is not JSON in its place the request is served.
\<close>

theorem non_object_message_ends_connection:
  "handle_client all_open (start RepServer_init) 1
     [Json (JArr []), Json (JObj [(''action'', JStr ''start_auto_detect'')])]
   = ((reset_pipeline (start RepServer_init))\<lparr>clients := {}\<rparr>, [Connected], Some AttributeError)
   \<and>
   handle_client all_open (start RepServer_init) 1
     [NotJson, Json (JObj [(''action'', JStr ''start_auto_detect'')])]
   = ((reset_pipeline (start RepServer_init))\<lparr>clients := {}, auto_detect_buffer := Some []\<rparr>,
      [Connected, AutoDetectStarted 200], None)"
  by (simp add: handle_client_def handle_message_def dict_get_def all_open_def
                reset_pipeline_def start_def RepServer_init_def AUTO_DETECT_SAMPLES_def)


section \<open>Reset\<close>

text \<open>
  Claim C5. Whatever the state of the server, so after any sequence of processed samples,
  handling the request \<^verbatim>\<open>{"action": "reset"}\<close> of a viewer leaves exactly the state of a
  newly constructed server on which \<^verbatim>\<open>_reset_pipeline\<close> has created its first session,
  but for the viewer set, the queue and the running flag, which are not part of a session:
  the pipeline is the initial one (projector count 0, smoother unset, detector window and
  counts empty), the sample index is 0 and no classification buffer is open. Hence the
  consumer loop does the same on every further sequence of samples from both states.
\<close>

theorem reset_gives_fresh_session:
  "fst (handle_message gone st ws (Json (JObj [(''action'', JStr ''reset'')])))
     = (reset_pipeline RepServer_init)
         \<lparr>clients := clients st, sample_queue := sample_queue st, running := running st\<rparr>
   \<and> pipeline (fst (handle_message gone st ws (Json (JObj [(''action'', JStr ''reset'')]))))
       = Some (StreamingPipeline_init 21 20 50 30 (15 / 100))
   \<and> sample_idx (fst (handle_message gone st ws (Json (JObj [(''action'', JStr ''reset'')])))) = 0
   \<and> auto_detect_buffer (fst (handle_message gone st ws (Json (JObj [(''action'', JStr ''reset'')]))))
       = None
   \<and> process_stream e (fst (handle_message gone st ws (Json (JObj [(''action'', JStr ''reset'')])))) xs
       = process_stream e ((reset_pipeline RepServer_init)
           \<lparr>clients := clients st, sample_queue := sample_queue st, running := running st\<rparr>) xs"
proof -
  have eq: "fst (handle_message gone st ws (Json (JObj [(''action'', JStr ''reset'')])))
     = (reset_pipeline RepServer_init)
         \<lparr>clients := clients st, sample_queue := sample_queue st, running := running st\<rparr>"
    by (cases "gone ws")
       (simp_all add: handle_message_def dict_get_def reset_pipeline_def RepServer_init_def Let_def)
  show ?thesis unfolding eq by (simp add: reset_pipeline_def RepServer_init_def)
qed


section \<open>A full classification buffer\<close>

lemma broadcast_frame:
  "pipeline (fst (broadcast gone st m)) = pipeline st"
  "sample_idx (fst (broadcast gone st m)) = sample_idx st"
  "auto_detect_buffer (fst (broadcast gone st m)) = auto_detect_buffer st"
  by (simp_all add: broadcast_def Let_def)

lemma cond_broadcast_frame:
  "pipeline (fst (if b then broadcast gone st m else (st, []))) = pipeline st"
  "sample_idx (fst (if b then broadcast gone st m else (st, []))) = sample_idx st"
  by (simp_all add: broadcast_frame)

lemma auto_detect_full:
  assumes "auto_detect_buffer st = Some buf" and "AUTO_DETECT_SAMPLES \<le> int (length buf) + 1"
  shows "auto_detect e st (ax, ay, az) =
           broadcast (env_closed e) (st\<lparr>auto_detect_buffer := None\<rparr>)
             (case env_classifier e of
                None \<Rightarrow> ExerciseDetected ''bicep_curl'' (current_rep_count st) None
              | Some classify \<Rightarrow>
                  (case classify (buf @ [(real_of_int ax, real_of_int ay, real_of_int az)]) of
                     Inr pred \<Rightarrow> ExerciseDetected pred (current_rep_count st) None
                   | Inl err \<Rightarrow> ExerciseDetected ''bicep_curl'' (current_rep_count st) (Some err)))"
proof -
  have "10 \<le> length buf + 1" using assms(2) by (simp add: AUTO_DETECT_SAMPLES_def)
  then show ?thesis using assms
    by (simp add: auto_detect_def Let_def current_rep_count_def
             split: option.splits sum.splits)
qed

lemma auto_detect_frame:
  "pipeline (fst (auto_detect e st x)) = pipeline st"
  "sample_idx (fst (auto_detect e st x)) = sample_idx st"
  by (cases x; simp add: auto_detect_def Let_def broadcast_frame
        split: option.splits sum.splits)+

text \<open>What one iteration does to the orchestrator depends on the orchestrator, the
  sample index and the sample only.\<close>

lemma process_one_orchestrator:
  "orchestrator_of (process_one e st x) =
     (case pipeline st of
        None \<Rightarrow> Inr (None, sample_idx st)
      | Some pl \<Rightarrow>
          (case x of (ax, ay, az) \<Rightarrow>
             (case pipeline_process_sample (env_eigh e) pl
                     (real_of_int ax, real_of_int ay, real_of_int az) (sample_idx st) of
                Inl err \<Rightarrow> Inl err
              | Inr (result, pl') \<Rightarrow> Inr (Some pl', sample_idx st + 1))))"
proof -
  obtain st1 ev1 where ad: "auto_detect e st x = (st1, ev1)" by (cases "auto_detect e st x")
  have p1: "pipeline st1 = pipeline st" and i1: "sample_idx st1 = sample_idx st"
    using auto_detect_frame[of e st x] ad by simp_all
  obtain ax ay az where x: "x = (ax, ay, az)" by (cases x)
  show ?thesis
  proof (cases "pipeline st")
    case None
    then show ?thesis using ad p1 i1 by (simp add: process_one_def orchestrator_of_def)
  next
    case (Some pl)
    show ?thesis
    proof (cases "pipeline_process_sample (env_eigh e) pl
                     (real_of_int ax, real_of_int ay, real_of_int az) (sample_idx st)")
      case (Inl err)
      then show ?thesis using ad p1 i1 Some x by (simp add: process_one_def orchestrator_of_def)
    next
      case (Inr res)
      obtain result pl' where res: "res = (result, pl')" by (cases res)
      show ?thesis using ad p1 i1 Some x Inr res
        by (simp add: process_one_def orchestrator_of_def Let_def case_prod_beta
                      cond_broadcast_frame)
    qed
  qed
qed

lemma pipeline_process_sample_returns:
  assumes "trackers_set (counter pl)"
  shows "\<exists>result pl'. pipeline_process_sample eigh pl raw idx = Inr (result, pl') \<and>
           trackers_set (counter pl')"
proof -
  obtain r c' where
    "process_sample (counter pl)
       (fst (smooth_update (smoother pl) (fst (update eigh (pca pl) raw)))) idx = Inr (r, c')"
    and "trackers_set c'"
    using process_sample_returns[OF assms] by blast
  then show ?thesis
    by (simp add: pipeline_process_sample_def case_prod_beta Let_def)
qed

lemma process_one_returns:
  assumes "session_ok st"
  shows "\<exists>st' ev. process_one e st x = Inr (st', ev)"
proof (cases "pipeline st")
  case None
  then have "orchestrator_of (process_one e st x) = Inr (None, sample_idx st)"
    by (simp add: process_one_orchestrator)
  then show ?thesis by (cases "process_one e st x") (auto simp: orchestrator_of_def)
next
  case (Some pl)
  obtain ax ay az where x: "x = (ax, ay, az)" by (cases x)
  have "trackers_set (counter pl)" using assms Some by (simp add: session_ok_def)
  then obtain result pl' where
    "pipeline_process_sample (env_eigh e) pl
       (real_of_int ax, real_of_int ay, real_of_int az) (sample_idx st) = Inr (result, pl')"
    using pipeline_process_sample_returns by blast
  then have "orchestrator_of (process_one e st x) = Inr (Some pl', sample_idx st + 1)"
    using Some x by (simp add: process_one_orchestrator)
  then show ?thesis by (cases "process_one e st x") (auto simp: orchestrator_of_def)
qed

text \<open>
  Claim C6, as the code has it. Let a classification buffer be open and the dequeued sample
  bring it to \<^verbatim>\<open>AUTO_DETECT_SAMPLES\<close>, on a server whose detector is well formed. Then the
  buffer is closed and one \<open>ExerciseDetected\<close> message is broadcast with the repetition
  count read at that moment: with the classifier's label when a classifier is loaded and
  returns; with the fallback label \<^verbatim>\<open>bicep_curl\<close> and the error text when it raises; and
  with the fallback label and no error annotation when no classifier is loaded, the
  classifier not being invoked. The pipeline and the sample index are untouched by this
  step, the iteration then leaves the orchestrator as an iteration without any open buffer
  does, and it returns: the loop continues.
\<close>

theorem classification_at_full_buffer:
  assumes "auto_detect_buffer st = Some buf"
      and "AUTO_DETECT_SAMPLES \<le> int (length buf) + 1"
      and "session_ok st"
  shows "auto_detect e st (ax, ay, az) =
           broadcast (env_closed e) (st\<lparr>auto_detect_buffer := None\<rparr>)
             (case env_classifier e of
                None \<Rightarrow> ExerciseDetected ''bicep_curl'' (current_rep_count st) None
              | Some classify \<Rightarrow>
                  (case classify (buf @ [(real_of_int ax, real_of_int ay, real_of_int az)]) of
                     Inr pred \<Rightarrow> ExerciseDetected pred (current_rep_count st) None
                   | Inl err \<Rightarrow> ExerciseDetected ''bicep_curl'' (current_rep_count st) (Some err)))
       \<and> pipeline (fst (auto_detect e st (ax, ay, az))) = pipeline st
       \<and> sample_idx (fst (auto_detect e st (ax, ay, az))) = sample_idx st
       \<and> orchestrator_of (process_one e st (ax, ay, az))
           = orchestrator_of (process_one e (st\<lparr>auto_detect_buffer := None\<rparr>) (ax, ay, az))
       \<and> (\<exists>st' ev. process_one e st (ax, ay, az) = Inr (st', ev))"
proof -
  have "orchestrator_of (process_one e st (ax, ay, az))
          = orchestrator_of (process_one e (st\<lparr>auto_detect_buffer := None\<rparr>) (ax, ay, az))"
    by (cases "pipeline st")
       (simp_all add: process_one_orchestrator split: sum.splits prod.splits)
  then show ?thesis
    using auto_detect_full[OF assms(1,2)] auto_detect_frame[of e st "(ax, ay, az)"]
          process_one_returns[OF assms(3)]
    by simp
qed

theorem classification_at_full_buffer_witness:
  "auto_detect_buffer collecting_session = Some (replicate 199 (0, 0, 0)) \<and>
   AUTO_DETECT_SAMPLES \<le> int (length (replicate 199 (0 :: real, 0 :: real, 0 :: real))) + 1 \<and>
   session_ok collecting_session \<and>
   snd (auto_detect env_failing_model collecting_session (0, 0, 0))
     = [(ExerciseDetected ''bicep_curl'' 0 (Some ''Data too short to classify''), {1})]"
proof -
  have b: "auto_detect_buffer collecting_session = Some (replicate 199 (0, 0, 0))"
    by (simp add: collecting_session_def)
  have f: "AUTO_DETECT_SAMPLES \<le> int (length (replicate 199 (0 :: real, 0 :: real, 0 :: real))) + 1"
    by (simp add: AUTO_DETECT_SAMPLES_def)
  have s: "session_ok collecting_session"
    by (simp add: session_ok_def collecting_session_def reset_pipeline_def trackers_set_def
                  StreamingPipeline_init_def StreamingRepCounter_init_def)
  have c: "current_rep_count collecting_session = 0"
    by (simp add: current_rep_count_def collecting_session_def reset_pipeline_def
                  StreamingPipeline_init_def StreamingRepCounter_init_def)
  have "snd (auto_detect env_failing_model collecting_session (0, 0, 0))
     = [(ExerciseDetected ''bicep_curl'' 0 (Some ''Data too short to classify''), {1})]"
    using classification_at_full_buffer[OF b f s, of env_failing_model 0 0 0] c
    by (simp add: env_failing_model_def failing_classifier_def broadcast_def all_open_def
                  collecting_session_def Let_def)
  then show ?thesis using b f s by simp
qed

text \<open>
  The sentence as the specification words it fails where no classifier model is loaded:
  the buffer of the collecting session fills, and the message broadcast to viewer 1 is the
  fallback label with count 0 and without an error annotation, which is neither a label
  obtained from a classifier nor an error-annotated fallback.
\<close>

theorem classification_without_model_counterexample:
  "snd (auto_detect env_no_model collecting_session (0, 0, 0))
     = [(ExerciseDetected ''bicep_curl'' 0 None, {1})]
   \<and> \<not> claimed_exercise_message env_no_model (replicate 199 (0, 0, 0) @ [(0, 0, 0)]) 0
         (ExerciseDetected ''bicep_curl'' 0 None)"
  by (simp add: auto_detect_def env_no_model_def collecting_session_def reset_pipeline_def
                AUTO_DETECT_SAMPLES_def broadcast_def all_open_def Let_def
                claimed_exercise_message_def StreamingPipeline_init_def
                StreamingRepCounter_init_def)

end
